theory Spec2Isabelle
  imports Main "HOL-Library.DAList"
begin

section \<open>sfmTransfer: data model\<close>

text \<open>
  Shallow embedding of \<^verbatim>\<open>src/software/utils/main_sfmTransfer.cpp\<close>.
  The program loads a target scene and a reference scene, matches their views
  and copies poses and intrinsics of matched reference views into the target.

  The scene class \<^verbatim>\<open>sfmData::SfMData\<close> and the matching helpers of
  \<^verbatim>\<open>aliceVision/sfm/utils/alignment.hpp\<close> are only included by the
  file, so the part of them that \<^verbatim>\<open>main\<close> calls is modelled from the
  specification (sections 3, 4 and 6); every such definition says so.
\<close>

text \<open>\<^verbatim>\<open>IndexT\<close> identifies views, poses and intrinsics. No arithmetic is
  done on identifiers, they are only compared and used as keys.\<close>

type_synonym IndexT = nat

text \<open>Lines 33-38.\<close>

datatype EMatchingMethod = FROM_VIEWID | FROM_FILEPATH | FROM_METADATA

text \<open>
  A view references a pose and an intrinsic by identifier, has a source image
  path, string-keyed metadata and a rig membership flag (specification,
  section 3). The fields carry the names of the accessors that
  \<^verbatim>\<open>main\<close> calls on a view.
\<close>

record View =
  getPoseId :: IndexT
  getIntrinsicId :: IndexT
  isPartOfRig :: bool
  getImagePath :: string
  getMetadata :: "string \<rightharpoonup> string"

text \<open>
  An intrinsic is a camera model together with its calibration parameters.
  A pose (type \<open>'p\<close>) and the parameters (type \<open>'c\<close>) are floating-point
  payloads that the program only copies; they stay abstract.
\<close>

record ('k, 'c) Intrinsic =
  cameraModel :: 'k
  parameters :: 'c

text \<open>
  A scene owns a table of views, a table of poses and a table of intrinsics.
  The view table is enumerated by the matchers, so it is an association list
  with unique keys in iteration order; the other two tables are only looked
  up and updated. Every intrinsic identifier owns its own intrinsic object.
\<close>

record ('p, 'k, 'c) SfMData =
  getViews :: "(IndexT, View) alist"
  getPoses :: "IndexT \<rightharpoonup> 'p"
  getIntrinsics :: "IndexT \<rightharpoonup> ('k, 'c) Intrinsic"

text \<open>
  The exceptions and the null dereference that leave \<^verbatim>\<open>main\<close>
  uncaught: a failed \<^verbatim>\<open>at\<close> on the view or pose table, a member call
  through the null pointer of an unknown intrinsic, and an assignment between
  intrinsics of different camera models.
\<close>

datatype error =
  ViewNotFound IndexT
  | PoseNotFound IndexT
  | IntrinsicNotFound IndexT
  | IntrinsicTypeMismatch

section \<open>The scene query surface\<close>

text \<open>Modelled from the spec: \<^verbatim>\<open>SfMData::getView\<close>, the lookup of a view by
  its identifier (section 6); an unknown identifier is an error.\<close>

definition getView :: "('p, 'k, 'c) SfMData \<Rightarrow> IndexT \<Rightarrow> error + View" where
  "getView s viewId =
     (case DAList.lookup (getViews s) viewId of
        None \<Rightarrow> Inl (ViewNotFound viewId)
      | Some v \<Rightarrow> Inr v)"

text \<open>Modelled from the spec: \<^verbatim>\<open>SfMData::isPoseAndIntrinsicDefined\<close>
  (section 3): a view is pose-and-intrinsic-complete iff its pose identifier
  resolves in the pose table of its scene and its intrinsic identifier
  resolves in the intrinsic table of its scene. An identifier that names no
  view of the scene has neither.\<close>

definition isPoseAndIntrinsicDefined :: "('p, 'k, 'c) SfMData \<Rightarrow> IndexT \<Rightarrow> bool" where
  "isPoseAndIntrinsicDefined s viewId =
     (case DAList.lookup (getViews s) viewId of
        None \<Rightarrow> False
      | Some v \<Rightarrow> getPoses s (getPoseId v) \<noteq> None \<and> getIntrinsics s (getIntrinsicId v) \<noteq> None)"

text \<open>Modelled from the spec: \<^verbatim>\<open>SfMData::getIntrinsicPtr\<close>, the lookup of an
  intrinsic by its identifier (section 6); \<open>None\<close> is the pointer to no
  intrinsic.\<close>

definition getIntrinsicPtr ::
  "('p, 'k, 'c) SfMData \<Rightarrow> IndexT \<Rightarrow> ('k, 'c) Intrinsic option" where
  "getIntrinsicPtr s intrinsicId = getIntrinsics s intrinsicId"

text \<open>Modelled from the spec: \<^verbatim>\<open>IntrinsicBase::assign\<close> (sections 3 and 4.2):
  the in-place assignment of the parameters of another intrinsic of compatible
  type; an incompatible type is a fatal error.\<close>

definition assign ::
  "('k, 'c) Intrinsic \<Rightarrow> ('k, 'c) Intrinsic \<Rightarrow> error + ('k, 'c) Intrinsic" where
  "assign this other =
     (if cameraModel this = cameraModel other
      then Inr (this\<lparr>parameters := parameters other\<rparr>)
      else Inl IntrinsicTypeMismatch)"

section \<open>View matching\<close>

text \<open>Modelled from the spec: \<^verbatim>\<open>sfm::getCommonViews\<close> (section 4.1, By View
  Identity): the identifiers of the first scene's views that are also in the
  second scene's view table.\<close>

definition getCommonViews ::
  "('p, 'k, 'c) SfMData \<Rightarrow> ('p, 'k, 'c) SfMData \<Rightarrow> IndexT list" where
  "getCommonViews sfmDataA sfmDataB =
     filter (\<lambda>viewId. DAList.lookup (getViews sfmDataB) viewId \<noteq> None)
       (map fst (DAList.impl_of (getViews sfmDataA)))"

text \<open>Modelled from the spec (section 4.1, By Metadata Equality): two views agree
  on a key list when, for every key, both carry it with equal values.\<close>

definition metadataAgree :: "string list \<Rightarrow> View \<Rightarrow> View \<Rightarrow> bool" where
  "metadataAgree keys viewA viewB =
     list_all (\<lambda>k. case getMetadata viewA k of
                     None \<Rightarrow> False
                   | Some x \<Rightarrow> getMetadata viewB k = Some x) keys"

text \<open>Modelled from the spec: \<^verbatim>\<open>sfm::matchViewsByMetadataMatching\<close> (section
  4.1): for each target view the reference views are scanned in iteration
  order and the first one that agrees on every listed key is taken; an empty
  key list produces nothing.\<close>

definition matchViewsByMetadataMatching ::
  "('p, 'k, 'c) SfMData \<Rightarrow> ('p, 'k, 'c) SfMData \<Rightarrow> string list \<Rightarrow> (IndexT \<times> IndexT) list" where
  "matchViewsByMetadataMatching sfmDataA sfmDataB metadataList =
     (if metadataList = [] then []
      else List.map_filter
        (\<lambda>(idA, viewA).
           case find (\<lambda>(idB, viewB). metadataAgree metadataList viewA viewB)
                  (DAList.impl_of (getViews sfmDataB)) of
             None \<Rightarrow> None
           | Some (idB, viewB) \<Rightarrow> Some (idA, idB))
        (DAList.impl_of (getViews sfmDataA)))"

text \<open>
  The command line after parsing (lines 90-98 and 100-158): the three file
  names, the two transfer flags, the matching method and its parameters.
\<close>

record Params =
  sfmDataFilename :: string
  outSfMDataFilename :: string
  sfmDataReferenceFilename :: string
  transferPoses :: bool
  transferIntrinsics :: bool
  matchingMethod :: EMatchingMethod
  fileMatchingPattern :: string
  metadataMatchingList :: "string list"

text \<open>
  Lines 184-207: the correspondences \<^verbatim>\<open>commonViewIds\<close>. The file-pattern
  matcher \<^verbatim>\<open>sfm::matchViewsByFilePattern\<close> is a parameter.
\<close>

definition commonViewIds ::
  "(('p, 'k, 'c) SfMData \<Rightarrow> ('p, 'k, 'c) SfMData \<Rightarrow> string \<Rightarrow> (IndexT \<times> IndexT) list) \<Rightarrow>
   Params \<Rightarrow> ('p, 'k, 'c) SfMData \<Rightarrow> ('p, 'k, 'c) SfMData \<Rightarrow> (IndexT \<times> IndexT) list" where
  "commonViewIds matchViewsByFilePattern params sfmDataIn sfmDataInRef =
     (case matchingMethod params of
        FROM_VIEWID \<Rightarrow> map (\<lambda>viewId. (viewId, viewId)) (getCommonViews sfmDataIn sfmDataInRef)
      | FROM_FILEPATH \<Rightarrow> matchViewsByFilePattern sfmDataIn sfmDataInRef (fileMatchingPattern params)
      | FROM_METADATA \<Rightarrow>
          matchViewsByMetadataMatching sfmDataIn sfmDataInRef (metadataMatchingList params))"

section \<open>Attribute transfer\<close>

text \<open>Line 240: the pose of the reference view, read with \<^verbatim>\<open>at\<close>, is stored
  with \<^verbatim>\<open>operator[]\<close> under the pose identifier of the target view.\<close>

definition copyPose ::
  "('p, 'k, 'c) SfMData \<Rightarrow> ('p, 'k, 'c) SfMData \<Rightarrow> View \<Rightarrow> View \<Rightarrow> error + ('p, 'k, 'c) SfMData" where
  "copyPose sfmDataInRef sfmDataIn viewA viewB =
     (case getPoses sfmDataInRef (getPoseId viewB) of
        None \<Rightarrow> Inl (PoseNotFound (getPoseId viewB))
      | Some pose \<Rightarrow>
          Inr (sfmDataIn\<lparr>getPoses := (getPoses sfmDataIn)(getPoseId viewA \<mapsto> pose)\<rparr>))"

text \<open>Line 244: the intrinsic of the target view is assigned, in place, from the
  intrinsic of the reference view. Neither pointer is tested.\<close>

definition assignIntrinsic ::
  "('p, 'k, 'c) SfMData \<Rightarrow> ('p, 'k, 'c) SfMData \<Rightarrow> View \<Rightarrow> View \<Rightarrow> error + ('p, 'k, 'c) SfMData" where
  "assignIntrinsic sfmDataInRef sfmDataIn viewA viewB =
     (case getIntrinsicPtr sfmDataIn (getIntrinsicId viewA) of
        None \<Rightarrow> Inl (IntrinsicNotFound (getIntrinsicId viewA))
      | Some this \<Rightarrow>
          (case getIntrinsicPtr sfmDataInRef (getIntrinsicId viewB) of
             None \<Rightarrow> Inl (IntrinsicNotFound (getIntrinsicId viewB))
           | Some other \<Rightarrow>
               (case assign this other of
                  Inl e \<Rightarrow> Inl e
                | Inr this' \<Rightarrow>
                    Inr (sfmDataIn\<lparr>getIntrinsics :=
                           (getIntrinsics sfmDataIn)(getIntrinsicId viewA \<mapsto> this')\<rparr>))))"

text \<open>Lines 224-246, the body of the loop for one pair \<^verbatim>\<open>matchingViews\<close>:
  the completeness gate, the rig test, then the two transfers.\<close>

definition transferPair ::
  "bool \<Rightarrow> bool \<Rightarrow> ('p, 'k, 'c) SfMData \<Rightarrow> ('p, 'k, 'c) SfMData \<Rightarrow> IndexT \<times> IndexT \<Rightarrow>
   error + ('p, 'k, 'c) SfMData" where
  "transferPair tPoses tIntrinsics sfmDataInRef sfmDataIn matchingViews =
     (if \<not> isPoseAndIntrinsicDefined sfmDataIn (fst matchingViews) \<and>
         isPoseAndIntrinsicDefined sfmDataInRef (snd matchingViews)
      then
        (case getView sfmDataIn (fst matchingViews) of
           Inl e \<Rightarrow> Inl e
         | Inr viewA \<Rightarrow>
             (case getView sfmDataInRef (snd matchingViews) of
                Inl e \<Rightarrow> Inl e
              | Inr viewB \<Rightarrow>
                  if isPartOfRig viewA \<or> isPartOfRig viewB then Inr sfmDataIn
                  else
                    (case (if tPoses then copyPose sfmDataInRef sfmDataIn viewA viewB
                           else Inr sfmDataIn) of
                       Inl e \<Rightarrow> Inl e
                     | Inr withPose \<Rightarrow>
                         if tIntrinsics then assignIntrinsic sfmDataInRef withPose viewA viewB
                         else Inr withPose)))
      else Inr sfmDataIn)"

text \<open>Lines 222-247: the loop over the correspondences, in their order; the first
  error ends it.\<close>

fun transferLoop ::
  "bool \<Rightarrow> bool \<Rightarrow> ('p, 'k, 'c) SfMData \<Rightarrow> ('p, 'k, 'c) SfMData \<Rightarrow> (IndexT \<times> IndexT) list \<Rightarrow>
   error + ('p, 'k, 'c) SfMData" where
  "transferLoop tPoses tIntrinsics sfmDataInRef sfmDataIn [] = Inr sfmDataIn"
| "transferLoop tPoses tIntrinsics sfmDataInRef sfmDataIn (matchingViews # rest) =
     (case transferPair tPoses tIntrinsics sfmDataInRef sfmDataIn matchingViews of
        Inl e \<Rightarrow> Inl e
      | Inr sfmDataIn' \<Rightarrow> transferLoop tPoses tIntrinsics sfmDataInRef sfmDataIn' rest)"

section \<open>The program\<close>

text \<open>The error-level log messages of \<^verbatim>\<open>main\<close> (lines 170, 178, 212, 218
  and 254). Messages of the levels info and debug decide nothing and are left
  out.\<close>

datatype LogError =
  InputCannotBeRead string
  | ReferenceCannotBeRead string
  | FailedToFindMatchingViews
  | NothingToDo
  | CannotSave string

definition EXIT_SUCCESS :: int where
  "EXIT_SUCCESS = 0"

definition EXIT_FAILURE :: int where
  "EXIT_FAILURE = 1"

text \<open>
  What a run that returns from \<^verbatim>\<open>main\<close> leaves behind: the exit code,
  the error-level messages in order, the scene handed to
  \<^verbatim>\<open>sfmDataIO::Save\<close> (if it was called) and the target scene in memory
  at the return (if it was loaded).
\<close>

record ('p, 'k, 'c) Run =
  exitCode :: int
  errorLog :: "LogError list"
  saveCall :: "('p, 'k, 'c) SfMData option"
  targetAtExit :: "('p, 'k, 'c) SfMData option"

text \<open>Lines 250-258: save and return.\<close>

definition saveAndExit ::
  "(('p, 'k, 'c) SfMData \<Rightarrow> string \<Rightarrow> bool) \<Rightarrow> Params \<Rightarrow> LogError list \<Rightarrow>
   ('p, 'k, 'c) SfMData \<Rightarrow> ('p, 'k, 'c) Run" where
  "saveAndExit Save params logged sfmDataIn =
     (if \<not> Save sfmDataIn (outSfMDataFilename params)
      then \<lparr>exitCode = EXIT_FAILURE,
            errorLog = logged @ [CannotSave (outSfMDataFilename params)],
            saveCall = Some sfmDataIn, targetAtExit = Some sfmDataIn\<rparr>
      else \<lparr>exitCode = EXIT_SUCCESS, errorLog = logged,
            saveCall = Some sfmDataIn, targetAtExit = Some sfmDataIn\<rparr>)"

text \<open>
  Lines 166-258 of \<^verbatim>\<open>main\<close>, after the command line is parsed. The scene
  reader \<^verbatim>\<open>sfmDataIO::Load\<close>, the scene writer \<^verbatim>\<open>sfmDataIO::Save\<close>
  and the file-pattern matcher are parameters. \<open>Inl\<close> is a run ended by an
  uncaught error inside the transfer loop, which returns nothing and saves
  nothing.
\<close>

definition main ::
  "(string \<Rightarrow> ('p, 'k, 'c) SfMData option) \<Rightarrow>
   (('p, 'k, 'c) SfMData \<Rightarrow> string \<Rightarrow> bool) \<Rightarrow>
   (('p, 'k, 'c) SfMData \<Rightarrow> ('p, 'k, 'c) SfMData \<Rightarrow> string \<Rightarrow> (IndexT \<times> IndexT) list) \<Rightarrow>
   Params \<Rightarrow> error + ('p, 'k, 'c) Run" where
  "main Load Save matchViewsByFilePattern params =
     (case Load (sfmDataFilename params) of
        None \<Rightarrow>
          Inr \<lparr>exitCode = EXIT_FAILURE,
               errorLog = [InputCannotBeRead (sfmDataFilename params)],
               saveCall = None, targetAtExit = None\<rparr>
      | Some sfmDataIn \<Rightarrow>
          (case Load (sfmDataReferenceFilename params) of
             None \<Rightarrow>
               Inr \<lparr>exitCode = EXIT_FAILURE,
                    errorLog = [ReferenceCannotBeRead (sfmDataReferenceFilename params)],
                    saveCall = None, targetAtExit = Some sfmDataIn\<rparr>
           | Some sfmDataInRef \<Rightarrow>
               (let common = commonViewIds matchViewsByFilePattern params sfmDataIn sfmDataInRef
                in if common = []
                   then Inr \<lparr>exitCode = EXIT_FAILURE, errorLog = [FailedToFindMatchingViews],
                             saveCall = None, targetAtExit = Some sfmDataIn\<rparr>
                   else if \<not> transferPoses params \<and> \<not> transferIntrinsics params
                   then Inr (saveAndExit Save params [NothingToDo] sfmDataIn)
                   else
                     (case transferLoop (transferPoses params) (transferIntrinsics params)
                             sfmDataInRef sfmDataIn common of
                        Inl e \<Rightarrow> Inl e
                      | Inr sfmDataIn' \<Rightarrow> Inr (saveAndExit Save params [] sfmDataIn')))))"

section \<open>Notions used in the proofs\<close>

text \<open>The camera model stored under each intrinsic identifier.\<close>

definition cameraModels :: "('p, 'k, 'c) SfMData \<Rightarrow> IndexT \<rightharpoonup> 'k" where
  "cameraModels s = map_option cameraModel \<circ> getIntrinsics s"

text \<open>A transfer keeps the views and the camera models and never removes a pose.\<close>

definition grownFrom :: "('p, 'k, 'c) SfMData \<Rightarrow> ('p, 'k, 'c) SfMData \<Rightarrow> bool" where
  "grownFrom s t \<longleftrightarrow>
     getViews t = getViews s \<and> dom (getPoses s) \<subseteq> dom (getPoses t) \<and>
     cameraModels t = cameraModels s"

text \<open>
  Two runs of the loop over the same correspondences, side by side: the first
  from \<open>s\<close> to its result \<open>final\<close>, the second from \<open>s'\<close>. While only
  poses are transferred, every pose entry of \<open>s'\<close> is the one of \<open>s\<close> or
  already the final one; while only intrinsics are transferred, the same holds
  of the intrinsic entries.
\<close>

definition posesReplay ::
  "('p, 'k, 'c) SfMData \<Rightarrow> ('p, 'k, 'c) SfMData \<Rightarrow> ('p, 'k, 'c) SfMData \<Rightarrow> bool" where
  "posesReplay final s s' \<longleftrightarrow>
     getViews s' = getViews s \<and> getIntrinsics s' = getIntrinsics s \<and>
     dom (getPoses s) \<subseteq> dom (getPoses s') \<and>
     (\<forall>x. getPoses s' x = getPoses s x \<or> getPoses s' x = getPoses final x)"

definition intrinsicsReplay ::
  "('p, 'k, 'c) SfMData \<Rightarrow> ('p, 'k, 'c) SfMData \<Rightarrow> ('p, 'k, 'c) SfMData \<Rightarrow> bool" where
  "intrinsicsReplay final s s' \<longleftrightarrow>
     getViews s' = getViews s \<and> getPoses s' = getPoses s \<and>
     cameraModels s' = cameraModels s \<and>
     (\<forall>x. getIntrinsics s' x = getIntrinsics s x \<or> getIntrinsics s' x = getIntrinsics final x)"

section \<open>Example scenes\<close>

text \<open>
  The end-to-end scenario of the specification (section 8), with numbers for
  poses and parameters: the target has the views 1, 2 and 3, of which view 3
  has neither pose nor intrinsic; the reference has the views 2, 3 and 4, all
  complete.
\<close>

definition exView :: "IndexT \<Rightarrow> IndexT \<Rightarrow> bool \<Rightarrow> View" where
  "exView poseId intrinsicId rig =
     \<lparr>getPoseId = poseId, getIntrinsicId = intrinsicId, isPartOfRig = rig,
      getImagePath = [], getMetadata = Map.empty\<rparr>"

definition exTarget :: "(nat, string, nat) SfMData" where
  "exTarget =
     \<lparr>getViews = Alist [(1, exView 1 10 False), (2, exView 2 10 False), (3, exView 3 30 False)],
      getPoses = [1 \<mapsto> 101, 2 \<mapsto> 102],
      getIntrinsics = [10 \<mapsto> \<lparr>cameraModel = ''pinhole'', parameters = 50\<rparr>]\<rparr>"

definition exReference :: "(nat, string, nat) SfMData" where
  "exReference =
     \<lparr>getViews = Alist [(2, exView 2 20 False), (3, exView 3 20 False), (4, exView 4 20 False)],
      getPoses = [2 \<mapsto> 202, 3 \<mapsto> 203, 4 \<mapsto> 204],
      getIntrinsics = [20 \<mapsto> \<lparr>cameraModel = ''pinhole'', parameters = 35\<rparr>]\<rparr>"

text \<open>The same reference with view 3 in a rig.\<close>

definition exRigReference :: "(nat, string, nat) SfMData" where
  "exRigReference =
     \<lparr>getViews = Alist [(2, exView 2 20 False), (3, exView 3 20 True), (4, exView 4 20 False)],
      getPoses = [2 \<mapsto> 202, 3 \<mapsto> 203, 4 \<mapsto> 204],
      getIntrinsics = [20 \<mapsto> \<lparr>cameraModel = ''pinhole'', parameters = 35\<rparr>]\<rparr>"

text \<open>A reference that shares no view with the target.\<close>

definition exDisjoint :: "(nat, string, nat) SfMData" where
  "exDisjoint =
     \<lparr>getViews = Alist [(7, exView 7 20 False)],
      getPoses = [7 \<mapsto> 207],
      getIntrinsics = [20 \<mapsto> \<lparr>cameraModel = ''pinhole'', parameters = 35\<rparr>]\<rparr>"

text \<open>The target after the pose of reference view 3 is copied.\<close>

definition exTransferred :: "(nat, string, nat) SfMData" where
  "exTransferred = exTarget\<lparr>getPoses := (getPoses exTarget)(3 \<mapsto> 203)\<rparr>"

text \<open>A target whose three views share the intrinsic 10, as views taken with
  one camera do; view 3 has no pose. After the transfer of both attributes
  from the reference, view 3 has its pose and the shared intrinsic has the
  parameters of the reference.\<close>

definition exShared :: "(nat, string, nat) SfMData" where
  "exShared =
     \<lparr>getViews = Alist [(1, exView 1 10 False), (2, exView 2 10 False), (3, exView 3 10 False)],
      getPoses = [1 \<mapsto> 101, 2 \<mapsto> 102],
      getIntrinsics = [10 \<mapsto> \<lparr>cameraModel = ''pinhole'', parameters = 50\<rparr>]\<rparr>"

definition exSharedDone :: "(nat, string, nat) SfMData" where
  "exSharedDone =
     exShared\<lparr>getPoses := (getPoses exShared)(3 \<mapsto> 203),
              getIntrinsics := (getIntrinsics exShared)
                (10 \<mapsto> \<lparr>cameraModel = ''pinhole'', parameters = 35\<rparr>)\<rparr>"

definition exParams :: Params where
  "exParams =
     \<lparr>sfmDataFilename = ''in'', outSfMDataFilename = ''out'', sfmDataReferenceFilename = ''ref'',
      transferPoses = True, transferIntrinsics = True, matchingMethod = FROM_VIEWID,
      fileMatchingPattern = [],
      metadataMatchingList =
        [''Make'', ''Model'', ''Exif:BodySerialNumber'', ''Exif:LensSerialNumber'']\<rparr>"

definition exLoad :: "(nat, string, nat) SfMData \<Rightarrow> string \<Rightarrow> (nat, string, nat) SfMData option" where
  "exLoad reference file =
     (if file = ''in'' then Some exTarget
      else if file = ''ref'' then Some reference
      else None)"

section \<open>Basic facts\<close>

lemma lookup_Alist:
  "distinct (map fst xs) \<Longrightarrow> DAList.lookup (Alist xs) = map_of xs"
  by (simp add: DAList.lookup.rep_eq impl_of_Alist)

lemma keys_lookup:
  "set (map fst (DAList.impl_of al)) = {k. DAList.lookup al k \<noteq> None}"
  by (auto simp: DAList.lookup.rep_eq map_of_eq_None_iff simp del: not_None_eq)

lemma isPoseAndIntrinsicDefined_iff:
  "isPoseAndIntrinsicDefined s viewId \<longleftrightarrow>
     (\<exists>v. DAList.lookup (getViews s) viewId = Some v \<and>
          getPoses s (getPoseId v) \<noteq> None \<and> getIntrinsics s (getIntrinsicId v) \<noteq> None)"
  by (simp add: isPoseAndIntrinsicDefined_def split: option.splits)

text \<open>The three ways a pair is processed.\<close>

lemma transferPair_skip:
  "isPoseAndIntrinsicDefined t (fst mv) \<or> \<not> isPoseAndIntrinsicDefined ref (snd mv) \<Longrightarrow>
     transferPair tp ti ref t mv = Inr t"
  by (auto simp: transferPair_def)

lemma transferPair_rig:
  "DAList.lookup (getViews t) (fst mv) = Some va \<Longrightarrow>
   DAList.lookup (getViews ref) (snd mv) = Some vb \<Longrightarrow>
   isPartOfRig va \<or> isPartOfRig vb \<Longrightarrow>
     transferPair tp ti ref t mv = Inr t"
  by (auto simp: transferPair_def getView_def)

lemma transferPair_move:
  "\<not> isPoseAndIntrinsicDefined s (fst mv) \<Longrightarrow> isPoseAndIntrinsicDefined ref (snd mv) \<Longrightarrow>
   DAList.lookup (getViews s) (fst mv) = Some va \<Longrightarrow>
   DAList.lookup (getViews ref) (snd mv) = Some vb \<Longrightarrow>
   \<not> isPartOfRig va \<Longrightarrow> \<not> isPartOfRig vb \<Longrightarrow>
     transferPair tp ti ref s mv =
       (case (if tp then copyPose ref s va vb else Inr s) of
          Inl e \<Rightarrow> Inl e
        | Inr w \<Rightarrow> if ti then assignIntrinsic ref w va vb else Inr w)"
  by (simp add: transferPair_def getView_def)

lemma transferPair_Inr_cases:
  assumes "transferPair tp ti ref s mv = Inr u"
  obtains
    (skip) "u = s"
      "isPoseAndIntrinsicDefined s (fst mv) \<or> \<not> isPoseAndIntrinsicDefined ref (snd mv)"
  | (rig) va vb where "u = s"
      "DAList.lookup (getViews s) (fst mv) = Some va"
      "DAList.lookup (getViews ref) (snd mv) = Some vb"
      "isPartOfRig va \<or> isPartOfRig vb"
  | (move) va vb w where
      "\<not> isPoseAndIntrinsicDefined s (fst mv)" "isPoseAndIntrinsicDefined ref (snd mv)"
      "DAList.lookup (getViews s) (fst mv) = Some va"
      "DAList.lookup (getViews ref) (snd mv) = Some vb"
      "\<not> isPartOfRig va" "\<not> isPartOfRig vb"
      "(if tp then copyPose ref s va vb else Inr s) = Inr w"
      "(if ti then assignIntrinsic ref w va vb else Inr w) = Inr u"
proof (cases "\<not> isPoseAndIntrinsicDefined s (fst mv) \<and> isPoseAndIntrinsicDefined ref (snd mv)")
  case False
  with assms have "u = s" by (auto simp: transferPair_def)
  with False skip show ?thesis by blast
next
  case True
  with assms obtain va vb where
    va: "DAList.lookup (getViews s) (fst mv) = Some va" and
    vb: "DAList.lookup (getViews ref) (snd mv) = Some vb"
    by (auto simp: transferPair_def getView_def split: option.splits)
  show ?thesis
  proof (cases "isPartOfRig va \<or> isPartOfRig vb")
    case rigged: True
    with assms va vb have "u = s" by (simp add: transferPair_rig)
    with rigged va vb rig show ?thesis by blast
  next
    case False
    with True va vb assms have
      "(case (if tp then copyPose ref s va vb else Inr s) of
          Inl e \<Rightarrow> Inl e
        | Inr w \<Rightarrow> if ti then assignIntrinsic ref w va vb else Inr w) = Inr u"
      by (simp add: transferPair_move)
    then obtain w where "(if tp then copyPose ref s va vb else Inr s) = Inr w"
      "(if ti then assignIntrinsic ref w va vb else Inr w) = Inr u"
      by (auto split: sum.splits)
    with True False va vb move show ?thesis by blast
  qed
qed

text \<open>Evaluation of the example scenes.\<close>

lemma exTarget_views:
  "DAList.lookup (getViews exTarget) =
     map_of [(1, exView 1 10 False), (2, exView 2 10 False), (3, exView 3 30 False)]"
  by (simp add: exTarget_def lookup_Alist)

lemma exReference_views:
  "DAList.lookup (getViews exReference) =
     map_of [(2, exView 2 20 False), (3, exView 3 20 False), (4, exView 4 20 False)]"
  by (simp add: exReference_def lookup_Alist)

lemma exRigReference_views:
  "DAList.lookup (getViews exRigReference) =
     map_of [(2, exView 2 20 False), (3, exView 3 20 True), (4, exView 4 20 False)]"
  by (simp add: exRigReference_def lookup_Alist)

lemma exTransferred_views: "getViews exTransferred = getViews exTarget"
  by (simp add: exTransferred_def)

lemma exTarget_complete:
  "isPoseAndIntrinsicDefined exTarget 2" "\<not> isPoseAndIntrinsicDefined exTarget 3"
  by (simp_all add: isPoseAndIntrinsicDefined_def exTarget_views exView_def)
    (simp_all add: exTarget_def)

lemma exTransferred_complete:
  "isPoseAndIntrinsicDefined exTransferred 2" "\<not> isPoseAndIntrinsicDefined exTransferred 3"
  by (simp_all add: isPoseAndIntrinsicDefined_def exTransferred_views exTarget_views exView_def)
    (simp_all add: exTransferred_def exTarget_def)

lemma exReference_complete:
  "isPoseAndIntrinsicDefined exReference 2" "isPoseAndIntrinsicDefined exReference 3"
  by (simp_all add: isPoseAndIntrinsicDefined_def exReference_views exView_def)
    (simp_all add: exReference_def)

lemma exRigReference_complete: "isPoseAndIntrinsicDefined exRigReference 3"
  by (simp add: isPoseAndIntrinsicDefined_def exRigReference_views exView_def)
    (simp add: exRigReference_def)

lemma exTarget_poses_only_3:
  "transferPair True False exReference exTarget (3, 3) = Inr exTransferred"
  by (simp add: transferPair_def exTarget_complete exReference_complete getView_def
      exTarget_views exReference_views copyPose_def)
    (simp add: exView_def exReference_def exTransferred_def)

lemma exTransferred_poses_only_3:
  "transferPair True False exReference exTransferred (3, 3) = Inr exTransferred"
  by (simp add: transferPair_def exTransferred_complete exReference_complete getView_def
      exTransferred_views exTarget_views exReference_views copyPose_def)
    (simp add: exView_def exReference_def exTransferred_def)

lemma exTarget_poses_only_loop:
  "transferLoop True False exReference exTarget [(2, 2), (3, 3)] = Inr exTransferred"
  by (simp add: transferPair_skip exTarget_complete exTarget_poses_only_3)

lemma exTransferred_ne: "exTransferred \<noteq> exTarget"
proof
  assume "exTransferred = exTarget"
  then have "getPoses exTransferred 3 = getPoses exTarget 3" by simp
  then show False by (simp add: exTransferred_def exTarget_def)
qed

lemma exCommon:
  "commonViewIds byPattern exParams exTarget exReference = [(2, 2), (3, 3)]"
  by (simp add: commonViewIds_def exParams_def getCommonViews_def exReference_views)
    (simp add: exTarget_def impl_of_Alist)

lemma exCommon_disjoint:
  "commonViewIds byPattern exParams exTarget exDisjoint = []"
  by (simp add: commonViewIds_def exParams_def getCommonViews_def exDisjoint_def lookup_Alist)
    (simp add: exTarget_def impl_of_Alist)

section \<open>The pose copy\<close>

text \<open>
  Claim C2, as the claim states it, fails: a pair that passes the completeness
  gate and has a view in a rig is left at line 235, before the pose copy.
  Here target view 3 is incomplete, reference view 3 is complete and in a rig,
  \<open>transferPoses\<close> is set, and the target pose table still has no entry
  under the pose identifier 3 of the target view.
\<close>

theorem rig_pair_passes_gate_without_copy:
  "\<not> isPoseAndIntrinsicDefined exTarget 3 \<and> isPoseAndIntrinsicDefined exRigReference 3 \<and>
   DAList.lookup (getViews exTarget) 3 = Some (exView 3 30 False) \<and>
   DAList.lookup (getViews exRigReference) 3 = Some (exView 3 20 True) \<and>
   getPoses exRigReference (getPoseId (exView 3 20 True)) = Some 203 \<and>
   transferPair True False exRigReference exTarget (3, 3) = Inr exTarget \<and>
   getPoses exTarget (getPoseId (exView 3 30 False)) = None"
proof -
  have "transferPair True False exRigReference exTarget (3, 3) = Inr exTarget"
    by (rule transferPair_rig [where va = "exView 3 30 False" and vb = "exView 3 20 True"])
      (simp_all add: exTarget_views exRigReference_views, simp add: exView_def)
  moreover have "getPoses exRigReference (getPoseId (exView 3 20 True)) = Some 203"
    by (simp add: exView_def exRigReference_def)
  moreover have "getPoses exTarget (getPoseId (exView 3 30 False)) = None"
    by (simp add: exView_def exTarget_def)
  ultimately show ?thesis
    by (simp add: exTarget_complete exRigReference_complete exTarget_views exRigReference_views)
qed

text \<open>
  Claim C2, amended. For a pair that passes the completeness gate, whose
  target view is in the target scene and neither of whose views is in a rig,
  with \<open>transferPoses\<close> set: the pose that the reference view's pose
  identifier resolves to is stored in the target pose table under the target
  view's own pose identifier, inserted or overwritten, and no other pose entry
  changes. This holds of every scene that the processing of the pair yields,
  and without \<open>transferIntrinsics\<close> the processing yields exactly the target
  with that one entry stored.
\<close>

theorem transferPair_copies_pose:
  assumes "DAList.lookup (getViews sfmDataIn) a = Some viewA"
    and "DAList.lookup (getViews sfmDataInRef) b = Some viewB"
    and "\<not> isPoseAndIntrinsicDefined sfmDataIn a"
    and "isPoseAndIntrinsicDefined sfmDataInRef b"
    and "\<not> isPartOfRig viewA" and "\<not> isPartOfRig viewB"
  shows "\<exists>pose. getPoses sfmDataInRef (getPoseId viewB) = Some pose \<and>
           (\<forall>sfmDataIn'.
              transferPair True tIntrinsics sfmDataInRef sfmDataIn (a, b) = Inr sfmDataIn' \<longrightarrow>
              getPoses sfmDataIn' = (getPoses sfmDataIn)(getPoseId viewA \<mapsto> pose)) \<and>
           (\<not> tIntrinsics \<longrightarrow>
              transferPair True tIntrinsics sfmDataInRef sfmDataIn (a, b) =
                Inr (sfmDataIn\<lparr>getPoses := (getPoses sfmDataIn)(getPoseId viewA \<mapsto> pose)\<rparr>))"
proof -
  from assms(2,4) obtain pose where pose: "getPoses sfmDataInRef (getPoseId viewB) = Some pose"
    by (auto simp: isPoseAndIntrinsicDefined_def)
  let ?withPose = "sfmDataIn\<lparr>getPoses := (getPoses sfmDataIn)(getPoseId viewA \<mapsto> pose)\<rparr>"
  have pair: "transferPair True tIntrinsics sfmDataInRef sfmDataIn (a, b) =
      (if tIntrinsics then assignIntrinsic sfmDataInRef ?withPose viewA viewB else Inr ?withPose)"
    using assms pose by (simp add: transferPair_def getView_def copyPose_def)
  have "getPoses sfmDataIn' = getPoses ?withPose"
    if "assignIntrinsic sfmDataInRef ?withPose viewA viewB = Inr sfmDataIn'" for sfmDataIn'
    using that by (auto simp: assignIntrinsic_def split: option.splits sum.splits)
  with pair pose show ?thesis by auto
qed

theorem transferPair_copies_pose_witness:
  "transferPair True False exReference exTarget (3, 3) =
     Inr (exTarget\<lparr>getPoses := (getPoses exTarget)(3 \<mapsto> 203)\<rparr>)"
proof -
  have viewA: "DAList.lookup (getViews exTarget) 3 = Some (exView 3 30 False)"
    by (simp add: exTarget_views)
  have viewB: "DAList.lookup (getViews exReference) 3 = Some (exView 3 20 False)"
    by (simp add: exReference_views)
  have noRig: "\<not> isPartOfRig (exView 3 30 False)" "\<not> isPartOfRig (exView 3 20 False)"
    by (simp_all add: exView_def)
  from transferPair_copies_pose
    [OF viewA viewB exTarget_complete(2) exReference_complete(2) noRig, of False]
  obtain pose where
    pose: "getPoses exReference (getPoseId (exView 3 20 False)) = Some pose" and
    pair: "transferPair True False exReference exTarget (3, 3) =
      Inr (exTarget\<lparr>getPoses := (getPoses exTarget)(getPoseId (exView 3 30 False) \<mapsto> pose)\<rparr>)"
    by blast
  from pose have "pose = 203"
    by (simp add: exView_def exReference_def)
  with pair show ?thesis
    by (simp add: exView_def)
qed

section \<open>Rigs\<close>

text \<open>
  Claim C3. When the target view or the reference view of a pair is in a rig,
  the processing of the pair returns the target scene as it is, with neither
  a pose copied nor an intrinsic assigned and without an error, and the loop
  goes on with the next pair from that same scene. The reference scene is
  only read.
\<close>

theorem rig_pair_is_skipped:
  assumes "DAList.lookup (getViews sfmDataIn) a = Some viewA"
    and "DAList.lookup (getViews sfmDataInRef) b = Some viewB"
    and "isPartOfRig viewA \<or> isPartOfRig viewB"
  shows "transferPair tPoses tIntrinsics sfmDataInRef sfmDataIn (a, b) = Inr sfmDataIn \<and>
         transferLoop tPoses tIntrinsics sfmDataInRef sfmDataIn ((a, b) # rest) =
           transferLoop tPoses tIntrinsics sfmDataInRef sfmDataIn rest"
  using assms by (auto simp: transferPair_def getView_def)

theorem rig_pair_is_skipped_witness:
  "transferPair True True exRigReference exTarget (3, 3) = Inr exTarget \<and>
   transferLoop True True exRigReference exTarget [(3, 3), (2, 2)] =
     transferLoop True True exRigReference exTarget [(2, 2)]"
  by (rule rig_pair_is_skipped [where viewA = "exView 3 30 False" and viewB = "exView 3 20 True"])
    (simp_all add: exTarget_views exRigReference_views, simp add: exView_def)

section \<open>Transfer of poses only\<close>

lemma copyPose_frame:
  "copyPose ref s va vb = Inr s' \<Longrightarrow>
     getViews s' = getViews s \<and> getIntrinsics s' = getIntrinsics s"
  by (auto simp: copyPose_def split: option.splits)

lemma transferPair_poses_only_frame:
  "transferPair True False ref s mv = Inr s' \<Longrightarrow>
     getViews s' = getViews s \<and> getIntrinsics s' = getIntrinsics s"
  by (auto simp: transferPair_def dest: copyPose_frame split: if_splits sum.splits)

lemma transferLoop_poses_only_frame:
  "transferLoop True False ref s common = Inr t \<Longrightarrow>
     getViews t = getViews s \<and> getIntrinsics t = getIntrinsics s"
proof (induction common arbitrary: s)
  case Nil
  then show ?case by simp
next
  case (Cons mv rest)
  from Cons.prems obtain mid where
    step: "transferPair True False ref s mv = Inr mid" and
    tail: "transferLoop True False ref mid rest = Inr t"
    by (auto split: sum.splits)
  from Cons.IH [OF tail] transferPair_poses_only_frame [OF step]
  show ?case by simp
qed

text \<open>
  Claim C5. With \<open>transferPoses\<close> set and \<open>transferIntrinsics\<close> unset, the
  scene that the loop returns has the intrinsic table (and the view table) of
  the scene it started from: only the pose table can differ.
\<close>

theorem poses_only_keeps_intrinsics:
  assumes "transferLoop True False sfmDataInRef sfmDataIn common = Inr sfmDataIn'"
  shows "getIntrinsics sfmDataIn' = getIntrinsics sfmDataIn \<and>
         getViews sfmDataIn' = getViews sfmDataIn"
  using assms by (simp add: transferLoop_poses_only_frame)

theorem poses_only_keeps_intrinsics_witness:
  "transferLoop True False exReference exTarget [(2, 2), (3, 3)] = Inr exTransferred \<and>
   getIntrinsics exTransferred = getIntrinsics exTarget \<and>
   getViews exTransferred = getViews exTarget"
proof -
  note run = exTarget_poses_only_loop
  from poses_only_keeps_intrinsics [OF run] run show ?thesis by blast
qed

section \<open>Matching\<close>

lemma set_getCommonViews:
  "set (getCommonViews A B) =
     {viewId. DAList.lookup (getViews A) viewId \<noteq> None \<and>
              DAList.lookup (getViews B) viewId \<noteq> None}"
  unfolding getCommonViews_def set_filter keys_lookup by blast

lemma distinct_getCommonViews: "distinct (getCommonViews A B)"
  by (simp add: getCommonViews_def)

text \<open>
  Claim C6. With the method \<open>FROM_VIEWID\<close> the correspondences hold no pair
  twice and are exactly the pairs \<open>(viewId, viewId)\<close> for the identifiers
  \<open>viewId\<close> that are in the view tables of both scenes.
\<close>

theorem from_viewid_pairs_common_ids:
  "distinct (commonViewIds byPattern (params\<lparr>matchingMethod := FROM_VIEWID\<rparr>)
               sfmDataIn sfmDataInRef) \<and>
   set (commonViewIds byPattern (params\<lparr>matchingMethod := FROM_VIEWID\<rparr>)
          sfmDataIn sfmDataInRef) =
     {(viewId, viewId) | viewId.
        DAList.lookup (getViews sfmDataIn) viewId \<noteq> None \<and>
        DAList.lookup (getViews sfmDataInRef) viewId \<noteq> None}"
proof -
  let ?ids = "getCommonViews sfmDataIn sfmDataInRef"
  have cv: "commonViewIds byPattern (params\<lparr>matchingMethod := FROM_VIEWID\<rparr>)
               sfmDataIn sfmDataInRef = map (\<lambda>viewId. (viewId, viewId)) ?ids"
    by (simp add: commonViewIds_def)
  have d: "distinct (map (\<lambda>viewId. (viewId, viewId)) ?ids)"
    by (simp add: distinct_map inj_on_def distinct_getCommonViews)
  have "set (map (\<lambda>viewId. (viewId, viewId)) ?ids) = (\<lambda>viewId. (viewId, viewId)) ` set ?ids"
    by (rule set_map)
  also have "\<dots> = {(viewId, viewId) | viewId.
        DAList.lookup (getViews sfmDataIn) viewId \<noteq> None \<and>
        DAList.lookup (getViews sfmDataInRef) viewId \<noteq> None}"
    unfolding set_getCommonViews by blast
  finally show ?thesis
    unfolding cv using d by blast
qed

text \<open>
  Claim C7. With the method \<open>FROM_METADATA\<close> and an empty list of metadata
  keys there are no correspondences, whatever the two scenes hold.
\<close>

theorem from_metadata_empty_list:
  "commonViewIds byPattern
     (params\<lparr>matchingMethod := FROM_METADATA, metadataMatchingList := []\<rparr>)
     sfmDataIn sfmDataInRef = []"
  by (simp add: commonViewIds_def matchViewsByMetadataMatching_def)

section \<open>Exit paths of the program\<close>

text \<open>
  Claim C8. When both scenes load and the matching finds no pair, the program
  returns \<open>EXIT_FAILURE\<close>, which is not zero, after the one error message;
  \<open>Save\<close> is not called and the target scene in memory is the loaded one.
\<close>

theorem main_without_common_views:
  assumes "Load (sfmDataFilename params) = Some sfmDataIn"
    and "Load (sfmDataReferenceFilename params) = Some sfmDataInRef"
    and "commonViewIds byPattern params sfmDataIn sfmDataInRef = []"
  shows "main Load Save byPattern params =
           Inr \<lparr>exitCode = EXIT_FAILURE, errorLog = [FailedToFindMatchingViews],
                saveCall = None, targetAtExit = Some sfmDataIn\<rparr> \<and>
         EXIT_FAILURE \<noteq> 0"
  using assms by (simp add: main_def EXIT_FAILURE_def)

theorem main_without_common_views_witness:
  "main (exLoad exDisjoint) (\<lambda>scene file. True) (\<lambda>A B pattern. []) exParams =
     Inr \<lparr>exitCode = EXIT_FAILURE, errorLog = [FailedToFindMatchingViews],
          saveCall = None, targetAtExit = Some exTarget\<rparr> \<and>
   EXIT_FAILURE \<noteq> 0"
  by (rule main_without_common_views [where sfmDataInRef = exDisjoint])
    (simp_all add: exLoad_def exParams_def exCommon_disjoint [unfolded exParams_def])

text \<open>
  Claim C9. When both scenes load, the matching finds a pair and both transfer
  flags are unset, the program logs the error \<open>NothingToDo\<close>, hands the
  loaded target scene, unchanged, to \<open>Save\<close>, and its exit code is zero
  exactly when \<open>Save\<close> succeeds.
\<close>

theorem main_nothing_to_do:
  assumes "Load (sfmDataFilename params) = Some sfmDataIn"
    and "Load (sfmDataReferenceFilename params) = Some sfmDataInRef"
    and "commonViewIds byPattern params sfmDataIn sfmDataInRef \<noteq> []"
    and "\<not> transferPoses params" and "\<not> transferIntrinsics params"
  shows "\<exists>run. main Load Save byPattern params = Inr run \<and>
           NothingToDo \<in> set (errorLog run) \<and>
           saveCall run = Some sfmDataIn \<and> targetAtExit run = Some sfmDataIn \<and>
           (exitCode run = 0) = Save sfmDataIn (outSfMDataFilename params)"
  using assms by (simp add: main_def saveAndExit_def EXIT_FAILURE_def EXIT_SUCCESS_def)

theorem main_nothing_to_do_witness:
  "\<exists>run. main (exLoad exReference) (\<lambda>scene file. True) (\<lambda>A B pattern. [])
            (exParams\<lparr>transferPoses := False, transferIntrinsics := False\<rparr>) = Inr run \<and>
         NothingToDo \<in> set (errorLog run) \<and>
         saveCall run = Some exTarget \<and> targetAtExit run = Some exTarget \<and>
         exitCode run = 0"
proof -
  let ?params = "exParams\<lparr>transferPoses := False, transferIntrinsics := False\<rparr>"
  have common: "commonViewIds (\<lambda>A B pattern. []) ?params exTarget exReference = [(2, 2), (3, 3)]"
    using exCommon [of "\<lambda>A B pattern. []"] by (simp add: commonViewIds_def exParams_def)
  have "\<exists>run. main (exLoad exReference) (\<lambda>scene file. True) (\<lambda>A B pattern. []) ?params = Inr run \<and>
           NothingToDo \<in> set (errorLog run) \<and>
           saveCall run = Some exTarget \<and> targetAtExit run = Some exTarget \<and>
           (exitCode run = 0) = (\<lambda>scene file. True) exTarget (outSfMDataFilename ?params)"
    by (rule main_nothing_to_do [where sfmDataInRef = exReference])
      (simp_all add: common, simp_all add: exLoad_def exParams_def)
  then show ?thesis by simp
qed

section \<open>The unguarded intrinsic assignment\<close>

text \<open>
  Claim C10. The gate admits a target view whose intrinsic identifier does
  not resolve in the target scene, since such a view is incomplete. With
  \<open>transferIntrinsics\<close> set, a complete reference view and no rig, line 244
  is then reached with no intrinsic to assign onto, and the pair ends in the
  error of the failed lookup instead of being skipped.
\<close>

theorem assignIntrinsic_reached_without_target:
  assumes "DAList.lookup (getViews sfmDataIn) a = Some viewA"
    and "DAList.lookup (getViews sfmDataInRef) b = Some viewB"
    and "isPoseAndIntrinsicDefined sfmDataInRef b"
    and "\<not> isPartOfRig viewA" and "\<not> isPartOfRig viewB"
    and "getIntrinsics sfmDataIn (getIntrinsicId viewA) = None"
  shows "\<not> isPoseAndIntrinsicDefined sfmDataIn a \<and>
         transferPair tPoses True sfmDataInRef sfmDataIn (a, b) =
           Inl (IntrinsicNotFound (getIntrinsicId viewA))"
  using assms
  by (auto simp: transferPair_def getView_def isPoseAndIntrinsicDefined_def copyPose_def
      assignIntrinsic_def getIntrinsicPtr_def)

theorem assignIntrinsic_reached_without_target_witness:
  "\<not> isPoseAndIntrinsicDefined exTarget 3 \<and>
   transferPair True True exReference exTarget (3, 3) = Inl (IntrinsicNotFound 30)"
proof -
  have "\<not> isPoseAndIntrinsicDefined exTarget 3 \<and>
      transferPair True True exReference exTarget (3, 3) =
        Inl (IntrinsicNotFound (getIntrinsicId (exView 3 30 False)))"
    by (rule assignIntrinsic_reached_without_target [where viewB = "exView 3 20 False"])
      (simp_all add: exTarget_views exReference_views exReference_complete,
        simp_all add: exView_def exTarget_def)
  then show ?thesis by (simp add: exView_def)
qed

section \<open>Idempotence of the transfer\<close>

text \<open>What every transfer keeps.\<close>

lemma cameraModels_Some:
  assumes "cameraModels t = cameraModels s" and "getIntrinsics s x = Some v"
  shows "\<exists>v'. getIntrinsics t x = Some v' \<and> cameraModel v' = cameraModel v"
proof -
  from assms(1) have "map_option cameraModel (getIntrinsics t x) =
      map_option cameraModel (getIntrinsics s x)"
    by (simp add: cameraModels_def fun_eq_iff)
  with assms(2) show ?thesis
    by (cases "getIntrinsics t x") simp_all
qed

lemma grownFrom_refl: "grownFrom s s"
  by (simp add: grownFrom_def)

lemma grownFrom_trans: "grownFrom s t \<Longrightarrow> grownFrom t u \<Longrightarrow> grownFrom s u"
  by (auto simp: grownFrom_def)

lemma grownFrom_complete:
  "grownFrom s t \<Longrightarrow> isPoseAndIntrinsicDefined s a \<Longrightarrow> isPoseAndIntrinsicDefined t a"
  by (auto simp: grownFrom_def isPoseAndIntrinsicDefined_def dest: cameraModels_Some
      split: option.splits)

lemma copyPose_grownFrom: "copyPose ref s va vb = Inr u \<Longrightarrow> grownFrom s u"
  by (auto simp: copyPose_def grownFrom_def cameraModels_def split: option.splits)

lemma assign_cameraModel: "assign this other = Inr this' \<Longrightarrow> cameraModel this' = cameraModel this"
  by (auto simp: assign_def split: if_splits)

lemma assignIntrinsic_grownFrom: "assignIntrinsic ref s va vb = Inr u \<Longrightarrow> grownFrom s u"
  by (auto simp: assignIntrinsic_def getIntrinsicPtr_def grownFrom_def cameraModels_def fun_eq_iff
      dest: assign_cameraModel split: option.splits sum.splits)

lemma transferPair_grownFrom: "transferPair tp ti ref s mv = Inr u \<Longrightarrow> grownFrom s u"
  by (auto simp: transferPair_def grownFrom_refl
      dest: copyPose_grownFrom assignIntrinsic_grownFrom grownFrom_trans
      split: if_splits sum.splits)

lemma transferLoop_grownFrom: "transferLoop tp ti ref s common = Inr t \<Longrightarrow> grownFrom s t"
proof (induction common arbitrary: s)
  case Nil
  then show ?case by (simp add: grownFrom_refl)
next
  case (Cons mv rest)
  then show ?case
    by (auto split: sum.splits dest: transferPair_grownFrom grownFrom_trans)
qed

subsection \<open>Poses only\<close>

lemma posesReplay_grown: "posesReplay final s s' \<Longrightarrow> grownFrom s s'"
  by (simp add: posesReplay_def grownFrom_def cameraModels_def)

lemma posesReplay_done: "posesReplay final final s' \<Longrightarrow> s' = final"
  by (auto simp: posesReplay_def fun_eq_iff)

lemma posesReplay_step:
  assumes step: "transferPair True False ref s mv = Inr u"
    and rel: "posesReplay final s s'"
  shows "\<exists>u'. transferPair True False ref s' mv = Inr u' \<and> posesReplay final u u'"
  using step
proof (cases rule: transferPair_Inr_cases)
  case skip
  with rel have "transferPair True False ref s' mv = Inr s'"
    by (auto intro: transferPair_skip dest: posesReplay_grown grownFrom_complete)
  with skip rel show ?thesis by simp
next
  case (rig va vb)
  with rel have "transferPair True False ref s' mv = Inr s'"
    by (auto simp: posesReplay_def intro: transferPair_rig)
  with rig rel show ?thesis by simp
next
  case (move va vb w)
  from move(7,8) have "copyPose ref s va vb = Inr u" by simp
  then obtain pose where pose: "getPoses ref (getPoseId vb) = Some pose"
    and u: "u = s\<lparr>getPoses := (getPoses s)(getPoseId va \<mapsto> pose)\<rparr>"
    by (auto simp: copyPose_def split: option.splits)
  from rel move(3) have va': "DAList.lookup (getViews s') (fst mv) = Some va"
    by (simp add: posesReplay_def)
  show ?thesis
  proof (cases "isPoseAndIntrinsicDefined s' (fst mv)")
    case False
    with move va' pose have
      "transferPair True False ref s' mv =
         Inr (s'\<lparr>getPoses := (getPoses s')(getPoseId va \<mapsto> pose)\<rparr>)"
      by (simp add: transferPair_move copyPose_def)
    moreover from rel u have
      "posesReplay final u (s'\<lparr>getPoses := (getPoses s')(getPoseId va \<mapsto> pose)\<rparr>)"
      by (auto simp: posesReplay_def)
    ultimately show ?thesis by blast
  next
    case True
    then have same: "transferPair True False ref s' mv = Inr s'"
      by (simp add: transferPair_skip)
    from True va' have there: "getPoses s' (getPoseId va) \<noteq> None"
      and intr: "getIntrinsics s' (getIntrinsicId va) \<noteq> None"
      by (auto simp: isPoseAndIntrinsicDefined_def)
    from intr rel have "getIntrinsics s (getIntrinsicId va) \<noteq> None"
      by (simp add: posesReplay_def)
    with move(1,3) have "getPoses s (getPoseId va) = None"
      by (auto simp: isPoseAndIntrinsicDefined_def)
    moreover from rel have "getPoses s' (getPoseId va) = getPoses s (getPoseId va) \<or>
        getPoses s' (getPoseId va) = getPoses final (getPoseId va)"
      by (simp add: posesReplay_def)
    ultimately have "getPoses s' (getPoseId va) = getPoses final (getPoseId va)"
      using there by auto
    with rel u there have "posesReplay final u s'"
      by (auto simp: posesReplay_def)
    with same show ?thesis by blast
  qed
qed

lemma posesReplay_loop:
  "transferLoop True False ref s common = Inr final \<Longrightarrow> posesReplay final s s' \<Longrightarrow>
     transferLoop True False ref s' common = Inr final"
proof (induction common arbitrary: s s')
  case Nil
  then show ?case by (simp add: posesReplay_done)
next
  case (Cons mv rest)
  from Cons.prems(1) obtain u where
    step: "transferPair True False ref s mv = Inr u" and
    tail: "transferLoop True False ref u rest = Inr final"
    by (auto split: sum.splits)
  from posesReplay_step [OF step Cons.prems(2)] obtain u' where
    step': "transferPair True False ref s' mv = Inr u'" and rel': "posesReplay final u u'"
    by blast
  from Cons.IH [OF tail rel'] step' show ?case by simp
qed

lemma idempotent_poses:
  assumes "transferLoop True False ref s common = Inr t"
  shows "transferLoop True False ref t common = Inr t"
proof -
  from assms have "grownFrom s t" by (rule transferLoop_grownFrom)
  moreover from assms have "getIntrinsics t = getIntrinsics s"
    by (simp add: transferLoop_poses_only_frame)
  ultimately have "posesReplay t s t"
    by (simp add: posesReplay_def grownFrom_def)
  with assms show ?thesis by (rule posesReplay_loop)
qed

subsection \<open>Intrinsics only\<close>

lemma assignIntrinsic_poses:
  "assignIntrinsic ref s va vb = Inr u \<Longrightarrow> getPoses u = getPoses s"
  by (auto simp: assignIntrinsic_def split: option.splits sum.splits)

lemma transferPair_intrinsics_only_poses:
  "transferPair False True ref s mv = Inr u \<Longrightarrow> getPoses u = getPoses s"
  by (auto simp: transferPair_def dest: assignIntrinsic_poses split: if_splits sum.splits)

lemma transferLoop_intrinsics_only_poses:
  "transferLoop False True ref s common = Inr t \<Longrightarrow> getPoses t = getPoses s"
proof (induction common arbitrary: s)
  case Nil
  then show ?case by simp
next
  case (Cons mv rest)
  then show ?case
    by (auto split: sum.splits dest: transferPair_intrinsics_only_poses)
qed

lemma intrinsicsReplay_complete:
  "intrinsicsReplay final s s' \<Longrightarrow>
     isPoseAndIntrinsicDefined s' a = isPoseAndIntrinsicDefined s a"
proof -
  assume rel: "intrinsicsReplay final s s'"
  then have "grownFrom s s'" and "grownFrom s' s"
    by (simp_all add: intrinsicsReplay_def grownFrom_def)
  then show ?thesis
    by (auto dest: grownFrom_complete)
qed

lemma intrinsicsReplay_done: "intrinsicsReplay final final s' \<Longrightarrow> s' = final"
  by (auto simp: intrinsicsReplay_def fun_eq_iff)

lemma cameraModels_update:
  "cameraModels (s\<lparr>getIntrinsics := (getIntrinsics s)(i \<mapsto> v)\<rparr>) =
     (cameraModels s)(i \<mapsto> cameraModel v)"
  by (simp add: cameraModels_def fun_eq_iff)

lemma intrinsicsReplay_step:
  assumes step: "transferPair False True ref s mv = Inr u"
    and rel: "intrinsicsReplay final s s'"
  shows "\<exists>u'. transferPair False True ref s' mv = Inr u' \<and> intrinsicsReplay final u u'"
  using step
proof (cases rule: transferPair_Inr_cases)
  case skip
  with rel have "transferPair False True ref s' mv = Inr s'"
    by (auto intro: transferPair_skip simp: intrinsicsReplay_complete)
  with skip rel show ?thesis by simp
next
  case (rig va vb)
  with rel have "transferPair False True ref s' mv = Inr s'"
    by (auto simp: intrinsicsReplay_def intro: transferPair_rig)
  with rig rel show ?thesis by simp
next
  case (move va vb w)
  from move(7,8) have "assignIntrinsic ref s va vb = Inr u" by simp
  then obtain mine other where
    mine: "getIntrinsics s (getIntrinsicId va) = Some mine" and
    other: "getIntrinsics ref (getIntrinsicId vb) = Some other" and
    model: "cameraModel mine = cameraModel other" and
    u: "u = s\<lparr>getIntrinsics :=
          (getIntrinsics s)(getIntrinsicId va \<mapsto> mine\<lparr>parameters := parameters other\<rparr>)\<rparr>"
    by (auto simp: assignIntrinsic_def getIntrinsicPtr_def assign_def
        split: option.splits sum.splits if_splits)
  from rel have models: "cameraModels s' = cameraModels s"
    by (simp add: intrinsicsReplay_def)
  from cameraModels_Some [OF models mine] obtain mine' where
    mine': "getIntrinsics s' (getIntrinsicId va) = Some mine'" and
    model': "cameraModel mine' = cameraModel mine"
    by blast
  from model' have same: "mine'\<lparr>parameters := parameters other\<rparr> =
      mine\<lparr>parameters := parameters other\<rparr>"
    by simp
  let ?u' = "s'\<lparr>getIntrinsics :=
          (getIntrinsics s')(getIntrinsicId va \<mapsto> mine\<lparr>parameters := parameters other\<rparr>)\<rparr>"
  from rel move(3) have va': "DAList.lookup (getViews s') (fst mv) = Some va"
    by (simp add: intrinsicsReplay_def)
  from move(1) rel have "\<not> isPoseAndIntrinsicDefined s' (fst mv)"
    by (simp add: intrinsicsReplay_complete)
  then have "transferPair False True ref s' mv = assignIntrinsic ref s' va vb"
    using move(2,4,5,6) va' by (simp add: transferPair_move)
  also from mine' other model model' have "\<dots> = Inr (s'\<lparr>getIntrinsics :=
      (getIntrinsics s')(getIntrinsicId va \<mapsto> mine'\<lparr>parameters := parameters other\<rparr>)\<rparr>)"
    by (simp add: assignIntrinsic_def getIntrinsicPtr_def assign_def)
  also have "\<dots> = Inr ?u'"
    by (simp only: same)
  finally have "transferPair False True ref s' mv = Inr ?u'" .
  moreover from rel u have "intrinsicsReplay final u ?u'"
    by (auto simp: intrinsicsReplay_def cameraModels_update)
  ultimately show ?thesis by blast
qed

lemma intrinsicsReplay_loop:
  "transferLoop False True ref s common = Inr final \<Longrightarrow> intrinsicsReplay final s s' \<Longrightarrow>
     transferLoop False True ref s' common = Inr final"
proof (induction common arbitrary: s s')
  case Nil
  then show ?case by (simp add: intrinsicsReplay_done)
next
  case (Cons mv rest)
  from Cons.prems(1) obtain u where
    step: "transferPair False True ref s mv = Inr u" and
    tail: "transferLoop False True ref u rest = Inr final"
    by (auto split: sum.splits)
  from intrinsicsReplay_step [OF step Cons.prems(2)] obtain u' where
    step': "transferPair False True ref s' mv = Inr u'" and rel': "intrinsicsReplay final u u'"
    by blast
  from Cons.IH [OF tail rel'] step' show ?case by simp
qed

lemma idempotent_intrinsics:
  assumes "transferLoop False True ref s common = Inr t"
  shows "transferLoop False True ref t common = Inr t"
proof -
  from assms have "grownFrom s t" by (rule transferLoop_grownFrom)
  moreover from assms have "getPoses t = getPoses s"
    by (rule transferLoop_intrinsics_only_poses)
  ultimately have "intrinsicsReplay t s t"
    by (simp add: intrinsicsReplay_def grownFrom_def)
  with assms show ?thesis by (rule intrinsicsReplay_loop)
qed

subsection \<open>Both flags\<close>

lemma transferLoop_fixed:
  "(\<And>mv. mv \<in> set common \<Longrightarrow> transferPair tp ti ref t mv = Inr t) \<Longrightarrow>
     transferLoop tp ti ref t common = Inr t"
  by (induction common) simp_all

lemma copyPose_defined:
  "copyPose ref s va vb = Inr w \<Longrightarrow> getPoses w (getPoseId va) \<noteq> None"
  by (auto simp: copyPose_def split: option.splits)

lemma assignIntrinsic_defined:
  "assignIntrinsic ref w va vb = Inr u \<Longrightarrow> getIntrinsics u (getIntrinsicId va) \<noteq> None"
  by (auto simp: assignIntrinsic_def split: option.splits sum.splits)

lemma transferPair_both_settles:
  assumes "transferPair True True ref s mv = Inr u" and "grownFrom u t"
  shows "transferPair True True ref t mv = Inr t"
  using assms(1)
proof (cases rule: transferPair_Inr_cases)
  case skip
  with assms(2) show ?thesis
    by (auto intro: transferPair_skip dest: grownFrom_complete)
next
  case (rig va vb)
  with assms(2) show ?thesis
    by (auto simp: grownFrom_def intro: transferPair_rig)
next
  case (move va vb w)
  from move(7) have w: "copyPose ref s va vb = Inr w" by simp
  from move(8) have u: "assignIntrinsic ref w va vb = Inr u" by simp
  from w have "getViews w = getViews s" and "getPoses w (getPoseId va) \<noteq> None"
    by (auto dest: copyPose_grownFrom copyPose_defined simp: grownFrom_def)
  moreover from u have "grownFrom w u" and "getIntrinsics u (getIntrinsicId va) \<noteq> None"
    by (auto dest: assignIntrinsic_grownFrom assignIntrinsic_defined)
  ultimately have "isPoseAndIntrinsicDefined u (fst mv)"
    using move(3) by (auto simp: isPoseAndIntrinsicDefined_def grownFrom_def)
  with assms(2) have "isPoseAndIntrinsicDefined t (fst mv)"
    by (rule grownFrom_complete)
  then show ?thesis by (simp add: transferPair_skip)
qed

lemma transferLoop_both_settles:
  "transferLoop True True ref s common = Inr t \<Longrightarrow> mv \<in> set common \<Longrightarrow>
     transferPair True True ref t mv = Inr t"
proof (induction common arbitrary: s)
  case Nil
  then show ?case by simp
next
  case (Cons p rest)
  from Cons.prems(1) obtain u where
    step: "transferPair True True ref s p = Inr u" and
    tail: "transferLoop True True ref u rest = Inr t"
    by (auto split: sum.splits)
  show ?case
  proof (cases "mv = p")
    case True
    with step transferLoop_grownFrom [OF tail] show ?thesis
      by (simp add: transferPair_both_settles)
  next
    case False
    with Cons.prems(2) have "mv \<in> set rest" by simp
    with Cons.IH [OF tail] show ?thesis .
  qed
qed

lemma idempotent_both:
  "transferLoop True True ref s common = Inr t \<Longrightarrow> transferLoop True True ref t common = Inr t"
  by (rule transferLoop_fixed) (rule transferLoop_both_settles)

subsection \<open>No flag\<close>

lemma transferPair_none:
  "transferPair False False ref s mv = Inr u \<Longrightarrow> u = s"
  by (auto simp: transferPair_def split: if_splits sum.splits)

lemma transferLoop_none:
  "transferLoop False False ref s common = Inr t \<Longrightarrow> t = s"
  by (induction common arbitrary: s) (auto split: sum.splits dest: transferPair_none)

lemma idempotent_none:
  "transferLoop False False ref s common = Inr t \<Longrightarrow> transferLoop False False ref t common = Inr t"
  by (frule transferLoop_none) simp

text \<open>
  Claim C4. For every flag setting, reference scene and list of
  correspondences: when the loop, started from a target scene, returns the
  scene \<open>once\<close>, the loop started again from \<open>once\<close> returns \<open>once\<close>.
\<close>

theorem transferLoop_idempotent:
  assumes "transferLoop tPoses tIntrinsics sfmDataInRef sfmDataIn common = Inr once"
  shows "transferLoop tPoses tIntrinsics sfmDataInRef once common = Inr once"
proof (cases tPoses)
  case poses: True
  show ?thesis
  proof (cases tIntrinsics)
    case True
    with poses assms show ?thesis by (simp add: idempotent_both)
  next
    case False
    with poses assms show ?thesis by (simp add: idempotent_poses)
  qed
next
  case noPoses: False
  show ?thesis
  proof (cases tIntrinsics)
    case True
    with noPoses assms show ?thesis by (simp add: idempotent_intrinsics)
  next
    case False
    with noPoses assms show ?thesis by (simp add: idempotent_none)
  qed
qed

theorem transferLoop_idempotent_witness:
  "transferLoop True False exReference exTarget [(2, 2), (3, 3)] = Inr exTransferred \<and>
   transferLoop True False exReference exTransferred [(2, 2), (3, 3)] = Inr exTransferred"
proof -
  note run = exTarget_poses_only_loop
  from transferLoop_idempotent [OF run] run show ?thesis by blast
qed

section \<open>The completeness gate\<close>

text \<open>What one pair can change, and what the loop can change.\<close>

lemma copyPose_intrinsics: "copyPose ref s va vb = Inr w \<Longrightarrow> getIntrinsics w = getIntrinsics s"
  by (auto simp: copyPose_def split: option.splits)

lemma copyPose_change:
  "copyPose ref s va vb = Inr w \<Longrightarrow> getPoses w p \<noteq> getPoses s p \<Longrightarrow> getPoseId va = p"
  by (auto simp: copyPose_def split: option.splits if_splits)

lemma assignIntrinsic_change:
  "assignIntrinsic ref w va vb = Inr u \<Longrightarrow> getIntrinsics u i \<noteq> getIntrinsics w i \<Longrightarrow>
     getIntrinsicId va = i"
  by (auto simp: assignIntrinsic_def split: option.splits sum.splits if_splits)

lemma transferPair_pose_change:
  assumes "transferPair tp ti ref s mv = Inr u" and "getPoses u p \<noteq> getPoses s p"
  shows "tp \<and> (\<exists>va. DAList.lookup (getViews s) (fst mv) = Some va \<and> getPoseId va = p \<and>
           \<not> isPoseAndIntrinsicDefined s (fst mv) \<and> isPoseAndIntrinsicDefined ref (snd mv))"
  using assms(1)
proof (cases rule: transferPair_Inr_cases)
  case skip
  with assms(2) show ?thesis by simp
next
  case (rig va vb)
  with assms(2) show ?thesis by simp
next
  case (move va vb w)
  from move(8) have uw: "getPoses u = getPoses w"
    by (auto dest: assignIntrinsic_poses split: if_splits)
  with assms(2) have changed: "getPoses w p \<noteq> getPoses s p" by simp
  with move(7) have tp: tp and w: "copyPose ref s va vb = Inr w"
    by (auto split: if_splits)
  from copyPose_change [OF w changed] have "getPoseId va = p" .
  with tp move(1,2,3) show ?thesis by simp
qed

lemma transferPair_intrinsic_change:
  assumes "transferPair tp ti ref s mv = Inr u" and "getIntrinsics u i \<noteq> getIntrinsics s i"
  shows "ti \<and> (\<exists>va. DAList.lookup (getViews s) (fst mv) = Some va \<and> getIntrinsicId va = i \<and>
           \<not> isPoseAndIntrinsicDefined s (fst mv) \<and> isPoseAndIntrinsicDefined ref (snd mv))"
  using assms(1)
proof (cases rule: transferPair_Inr_cases)
  case skip
  with assms(2) show ?thesis by simp
next
  case (rig va vb)
  with assms(2) show ?thesis by simp
next
  case (move va vb w)
  from move(7) have ws: "getIntrinsics w = getIntrinsics s"
    by (auto dest: copyPose_intrinsics split: if_splits)
  with assms(2) have changed: "getIntrinsics u i \<noteq> getIntrinsics w i" by simp
  with move(8) have ti: ti and u: "assignIntrinsic ref w va vb = Inr u"
    by (auto split: if_splits)
  from assignIntrinsic_change [OF u changed] have "getIntrinsicId va = i" .
  with ti move(1,2,3) show ?thesis by simp
qed

lemma transferLoop_pose_change:
  "transferLoop tp ti ref s common = Inr t \<Longrightarrow> getPoses t p \<noteq> getPoses s p \<Longrightarrow>
     tp \<and> (\<exists>mv \<in> set common. \<exists>va.
        DAList.lookup (getViews s) (fst mv) = Some va \<and> getPoseId va = p \<and>
        \<not> isPoseAndIntrinsicDefined s (fst mv) \<and> isPoseAndIntrinsicDefined ref (snd mv))"
proof (induction common arbitrary: s)
  case Nil
  then show ?case by simp
next
  case (Cons mv rest)
  from Cons.prems(1) obtain u where
    step: "transferPair tp ti ref s mv = Inr u" and
    tail: "transferLoop tp ti ref u rest = Inr t"
    by (auto split: sum.splits)
  from step have grown: "grownFrom s u" by (rule transferPair_grownFrom)
  show ?case
  proof (cases "getPoses u p = getPoses s p")
    case True
    with Cons.prems(2) have "getPoses t p \<noteq> getPoses u p" by simp
    from Cons.IH [OF tail this] obtain mv' va where
      tp: tp and mv': "mv' \<in> set rest" and
      va: "DAList.lookup (getViews u) (fst mv') = Some va" "getPoseId va = p" and
      gate: "\<not> isPoseAndIntrinsicDefined u (fst mv')" "isPoseAndIntrinsicDefined ref (snd mv')"
      by blast
    from grown va(1) have "DAList.lookup (getViews s) (fst mv') = Some va"
      by (simp add: grownFrom_def)
    moreover from grown gate(1) have "\<not> isPoseAndIntrinsicDefined s (fst mv')"
      by (auto dest: grownFrom_complete)
    ultimately show ?thesis
      using tp mv' va(2) gate(2) by auto
  next
    case False
    from transferPair_pose_change [OF step False] show ?thesis by auto
  qed
qed

lemma transferLoop_intrinsic_change:
  "transferLoop tp ti ref s common = Inr t \<Longrightarrow> getIntrinsics t i \<noteq> getIntrinsics s i \<Longrightarrow>
     ti \<and> (\<exists>mv \<in> set common. \<exists>va.
        DAList.lookup (getViews s) (fst mv) = Some va \<and> getIntrinsicId va = i \<and>
        \<not> isPoseAndIntrinsicDefined s (fst mv) \<and> isPoseAndIntrinsicDefined ref (snd mv))"
proof (induction common arbitrary: s)
  case Nil
  then show ?case by simp
next
  case (Cons mv rest)
  from Cons.prems(1) obtain u where
    step: "transferPair tp ti ref s mv = Inr u" and
    tail: "transferLoop tp ti ref u rest = Inr t"
    by (auto split: sum.splits)
  from step have grown: "grownFrom s u" by (rule transferPair_grownFrom)
  show ?case
  proof (cases "getIntrinsics u i = getIntrinsics s i")
    case True
    with Cons.prems(2) have "getIntrinsics t i \<noteq> getIntrinsics u i" by simp
    from Cons.IH [OF tail this] obtain mv' va where
      ti: ti and mv': "mv' \<in> set rest" and
      va: "DAList.lookup (getViews u) (fst mv') = Some va" "getIntrinsicId va = i" and
      gate: "\<not> isPoseAndIntrinsicDefined u (fst mv')" "isPoseAndIntrinsicDefined ref (snd mv')"
      by blast
    from grown va(1) have "DAList.lookup (getViews s) (fst mv') = Some va"
      by (simp add: grownFrom_def)
    moreover from grown gate(1) have "\<not> isPoseAndIntrinsicDefined s (fst mv')"
      by (auto dest: grownFrom_complete)
    ultimately show ?thesis
      using ti mv' va(2) gate(2) by auto
  next
    case False
    from transferPair_intrinsic_change [OF step False] show ?thesis by auto
  qed
qed

text \<open>Evaluation of the target with the shared intrinsic.\<close>

lemma exShared_views:
  "DAList.lookup (getViews exShared) =
     map_of [(1, exView 1 10 False), (2, exView 2 10 False), (3, exView 3 10 False)]"
  by (simp add: exShared_def lookup_Alist)

lemma exShared_complete:
  "isPoseAndIntrinsicDefined exShared 2" "\<not> isPoseAndIntrinsicDefined exShared 3"
  by (simp_all add: isPoseAndIntrinsicDefined_def exShared_views exView_def)
    (simp_all add: exShared_def)

lemma exShared_both_3:
  "transferPair True True exReference exShared (3, 3) = Inr exSharedDone"
proof -
  let ?viewA = "exView 3 10 False" and ?viewB = "exView 3 20 False"
  let ?withPose = "exShared\<lparr>getPoses := (getPoses exShared)(3 \<mapsto> 203)\<rparr>"
  have viewA: "DAList.lookup (getViews exShared) (fst (3, 3)) = Some ?viewA"
    by (simp add: exShared_views)
  have viewB: "DAList.lookup (getViews exReference) (snd (3, 3)) = Some ?viewB"
    by (simp add: exReference_views)
  have gate: "\<not> isPoseAndIntrinsicDefined exShared (fst (3, 3))"
    "isPoseAndIntrinsicDefined exReference (snd (3, 3))"
    by (simp_all add: exShared_complete exReference_complete)
  have noRig: "\<not> isPartOfRig ?viewA" "\<not> isPartOfRig ?viewB"
    by (simp_all add: exView_def)
  have pose: "copyPose exReference exShared ?viewA ?viewB = Inr ?withPose"
    by (simp add: copyPose_def exView_def exReference_def)
  have intrinsic: "assignIntrinsic exReference ?withPose ?viewA ?viewB = Inr exSharedDone"
    by (simp add: assignIntrinsic_def getIntrinsicPtr_def assign_def exView_def exReference_def
        exSharedDone_def exShared_def)
  have "transferPair True True exReference exShared (3, 3) =
      (case (if True then copyPose exReference exShared ?viewA ?viewB else Inr exShared) of
         Inl e \<Rightarrow> Inl e
       | Inr w \<Rightarrow> if True then assignIntrinsic exReference w ?viewA ?viewB else Inr w)"
    using gate viewA viewB noRig by (rule transferPair_move)
  also have "\<dots> = Inr exSharedDone"
    by (simp add: pose intrinsic)
  finally show ?thesis .
qed

lemma exShared_both_loop:
  "transferLoop True True exReference exShared [(2, 2), (3, 3)] = Inr exSharedDone"
  by (simp add: transferPair_skip exShared_complete exShared_both_3)

text \<open>
  Claim C1, as the claim states it, fails in its clause on complete views.
  The gate is tested on the target view of the pair, but the intrinsic that
  line 244 assigns onto belongs to every view with that intrinsic identifier.
  Here view 2 is complete and shares the intrinsic 10 with view 3, which has
  no pose: the pair \<open>(2, 2)\<close> is skipped, the pair \<open>(3, 3)\<close> passes the gate,
  and the run replaces the parameters 50 of the intrinsic of view 2 by 35.
\<close>

theorem shared_intrinsic_of_complete_view_overwritten:
  "isPoseAndIntrinsicDefined exShared 2 \<and>
   DAList.lookup (getViews exShared) 2 = Some (exView 2 10 False) \<and>
   getIntrinsics exShared (getIntrinsicId (exView 2 10 False)) =
     Some \<lparr>cameraModel = ''pinhole'', parameters = 50\<rparr> \<and>
   transferLoop True True exReference exShared [(2, 2), (3, 3)] = Inr exSharedDone \<and>
   DAList.lookup (getViews exSharedDone) 2 = Some (exView 2 10 False) \<and>
   getIntrinsics exSharedDone (getIntrinsicId (exView 2 10 False)) =
     Some \<lparr>cameraModel = ''pinhole'', parameters = 35\<rparr>"
proof -
  have "getIntrinsics exShared (getIntrinsicId (exView 2 10 False)) =
      Some \<lparr>cameraModel = ''pinhole'', parameters = 50\<rparr>"
    by (simp add: exView_def exShared_def)
  moreover have "getIntrinsics exSharedDone (getIntrinsicId (exView 2 10 False)) =
      Some \<lparr>cameraModel = ''pinhole'', parameters = 35\<rparr>"
    by (simp add: exView_def exSharedDone_def)
  moreover have "getViews exSharedDone = getViews exShared"
    by (simp add: exSharedDone_def)
  moreover have "DAList.lookup (getViews exShared) 2 = Some (exView 2 10 False)"
    by (simp add: exShared_views)
  moreover note exShared_complete(1) exShared_both_loop
  ultimately show ?thesis by simp
qed

text \<open>
  Claim C1, amended. Pair by pair: whatever the flags, a pair whose processing
  does anything else than leave the target scene as it is has passed the gate,
  its target view is not pose-and-intrinsic-complete and its reference view
  is; so a pair with a complete target view, or with an incomplete reference
  view, changes nothing. Over the whole loop: the view table is unchanged, and
  an entry of the pose table (of the intrinsic table) differs from the one at
  the start only if \<open>transferPoses\<close> (\<open>transferIntrinsics\<close>) is set and
  the entry is the one that the target view of some pair refers to, that view
  being incomplete at the start and its reference view complete. A complete
  view is therefore modified only through a pose or intrinsic identifier that
  it shares with such a view. Completeness is the joint condition of
  \<open>isPoseAndIntrinsicDefined_iff\<close>.
\<close>

theorem transfer_only_through_gate:
  "(transferPair tPoses tIntrinsics sfmDataInRef sfmDataIn (a, b) \<noteq> Inr sfmDataIn \<longrightarrow>
      \<not> isPoseAndIntrinsicDefined sfmDataIn a \<and> isPoseAndIntrinsicDefined sfmDataInRef b) \<and>
   (transferLoop tPoses tIntrinsics sfmDataInRef sfmDataIn common = Inr sfmDataIn' \<longrightarrow>
      getViews sfmDataIn' = getViews sfmDataIn \<and>
      (getPoses sfmDataIn' poseId \<noteq> getPoses sfmDataIn poseId \<longrightarrow>
         tPoses \<and>
         (\<exists>matchingViews \<in> set common. \<exists>viewA.
            DAList.lookup (getViews sfmDataIn) (fst matchingViews) = Some viewA \<and>
            getPoseId viewA = poseId \<and>
            \<not> isPoseAndIntrinsicDefined sfmDataIn (fst matchingViews) \<and>
            isPoseAndIntrinsicDefined sfmDataInRef (snd matchingViews))) \<and>
      (getIntrinsics sfmDataIn' intrinsicId \<noteq> getIntrinsics sfmDataIn intrinsicId \<longrightarrow>
         tIntrinsics \<and>
         (\<exists>matchingViews \<in> set common. \<exists>viewA.
            DAList.lookup (getViews sfmDataIn) (fst matchingViews) = Some viewA \<and>
            getIntrinsicId viewA = intrinsicId \<and>
            \<not> isPoseAndIntrinsicDefined sfmDataIn (fst matchingViews) \<and>
            isPoseAndIntrinsicDefined sfmDataInRef (snd matchingViews))))"
proof (intro conjI impI)
  assume "transferPair tPoses tIntrinsics sfmDataInRef sfmDataIn (a, b) \<noteq> Inr sfmDataIn"
  then have gate: "\<not> isPoseAndIntrinsicDefined sfmDataIn a \<and>
      isPoseAndIntrinsicDefined sfmDataInRef b"
    by (auto simp: transferPair_def split: if_splits)
  from gate show "\<not> isPoseAndIntrinsicDefined sfmDataIn a" by simp
  from gate show "isPoseAndIntrinsicDefined sfmDataInRef b" by simp
next
  assume "transferLoop tPoses tIntrinsics sfmDataInRef sfmDataIn common = Inr sfmDataIn'"
  then show "getViews sfmDataIn' = getViews sfmDataIn"
    by (auto dest: transferLoop_grownFrom simp: grownFrom_def)
next
  assume run: "transferLoop tPoses tIntrinsics sfmDataInRef sfmDataIn common = Inr sfmDataIn'"
    and changed: "getPoses sfmDataIn' poseId \<noteq> getPoses sfmDataIn poseId"
  from transferLoop_pose_change [OF run changed] show tPoses by simp
  from transferLoop_pose_change [OF run changed]
  show "\<exists>matchingViews \<in> set common. \<exists>viewA.
      DAList.lookup (getViews sfmDataIn) (fst matchingViews) = Some viewA \<and>
      getPoseId viewA = poseId \<and>
      \<not> isPoseAndIntrinsicDefined sfmDataIn (fst matchingViews) \<and>
      isPoseAndIntrinsicDefined sfmDataInRef (snd matchingViews)"
    by simp
next
  assume run: "transferLoop tPoses tIntrinsics sfmDataInRef sfmDataIn common = Inr sfmDataIn'"
    and changed: "getIntrinsics sfmDataIn' intrinsicId \<noteq> getIntrinsics sfmDataIn intrinsicId"
  from transferLoop_intrinsic_change [OF run changed] show tIntrinsics by simp
  from transferLoop_intrinsic_change [OF run changed]
  show "\<exists>matchingViews \<in> set common. \<exists>viewA.
      DAList.lookup (getViews sfmDataIn) (fst matchingViews) = Some viewA \<and>
      getIntrinsicId viewA = intrinsicId \<and>
      \<not> isPoseAndIntrinsicDefined sfmDataIn (fst matchingViews) \<and>
      isPoseAndIntrinsicDefined sfmDataInRef (snd matchingViews)"
    by simp
qed

theorem transfer_only_through_gate_witness:
  "transferPair True True exReference exShared (3, 3) \<noteq> Inr exShared \<and>
   \<not> isPoseAndIntrinsicDefined exShared 3 \<and> isPoseAndIntrinsicDefined exReference 3 \<and>
   transferLoop True True exReference exShared [(2, 2), (3, 3)] = Inr exSharedDone \<and>
   getViews exSharedDone = getViews exShared \<and>
   getPoses exSharedDone 3 \<noteq> getPoses exShared 3 \<and>
   (\<exists>matchingViews \<in> set [(2, 2), (3, 3)]. \<exists>viewA.
      DAList.lookup (getViews exShared) (fst matchingViews) = Some viewA \<and>
      getPoseId viewA = 3 \<and>
      \<not> isPoseAndIntrinsicDefined exShared (fst matchingViews) \<and>
      isPoseAndIntrinsicDefined exReference (snd matchingViews)) \<and>
   getIntrinsics exSharedDone 10 \<noteq> getIntrinsics exShared 10 \<and>
   (\<exists>matchingViews \<in> set [(2, 2), (3, 3)]. \<exists>viewA.
      DAList.lookup (getViews exShared) (fst matchingViews) = Some viewA \<and>
      getIntrinsicId viewA = 10 \<and>
      \<not> isPoseAndIntrinsicDefined exShared (fst matchingViews) \<and>
      isPoseAndIntrinsicDefined exReference (snd matchingViews))"
proof -
  have poseChanged: "getPoses exSharedDone 3 \<noteq> getPoses exShared 3"
    by (simp add: exSharedDone_def exShared_def)
  have intrinsicChanged: "getIntrinsics exSharedDone 10 \<noteq> getIntrinsics exShared 10"
    by (simp add: exSharedDone_def exShared_def)
  from poseChanged have "exSharedDone \<noteq> exShared" by auto
  then have pairChanged: "transferPair True True exReference exShared (3, 3) \<noteq> Inr exShared"
    by (simp add: exShared_both_3)
  note run = exShared_both_loop
  note gate = transfer_only_through_gate
    [where tPoses = True and tIntrinsics = True and sfmDataInRef = exReference
      and sfmDataIn = exShared and a = 3 and b = 3 and common = "[(2, 2), (3, 3)]"
      and sfmDataIn' = exSharedDone and poseId = 3 and intrinsicId = 10]
  from gate pairChanged run poseChanged intrinsicChanged show ?thesis
    by blast
qed

end
